theory Spec2Isabelle
  imports Complex_Main
begin

section \<open>The Python values the rematch manager computes with\<close>

text \<open>
  The manager (\<^verbatim>\<open>src/rematch_manager.py\<close>, class \<^verbatim>\<open>Rematch_Manager\<close>) compares player
  names with \<^verbatim>\<open>str.lower\<close>, splits the time control with \<^verbatim>\<open>str.split('+')\<close>, and converts
  the two parts with \<^verbatim>\<open>float\<close> and \<^verbatim>\<open>int\<close>. Strings are modelled as \<^typ>\<open>string\<close>, one
  \<^typ>\<open>char\<close> per code point, so the model covers the code points below 256 (Latin-1);
  the lichess user names and time controls the bot sees are ASCII.
\<close>

subsection \<open>Exceptions\<close>

text \<open>
  The exceptions the modelled code can raise. \<^verbatim>\<open>_create_rematch_challenge\<close> catches
  \<^verbatim>\<open>ValueError\<close> (and \<^verbatim>\<open>AttributeError\<close>, which typed inputs never raise);
  \<^verbatim>\<open>OverflowError\<close> is an \<^verbatim>\<open>ArithmeticError\<close> and is not caught.
\<close>

datatype exn = ValueError | OverflowError

subsection \<open>Characters and \<^verbatim>\<open>str.lower\<close>\<close>

definition is_upper :: "char \<Rightarrow> bool" where
  "is_upper c =
     (let n = (of_char c :: nat)
      in (65 \<le> n \<and> n \<le> 90) \<or> (192 \<le> n \<and> n \<le> 222 \<and> n \<noteq> 215))"

definition lower_char :: "char \<Rightarrow> char" where
  "lower_char c = (if is_upper c then char_of ((of_char c :: nat) + 32) else c)"

definition lower :: "string \<Rightarrow> string" where
  "lower s = map lower_char s"

definition is_digit :: "char \<Rightarrow> bool" where
  "is_digit c = (48 \<le> (of_char c :: nat) \<and> (of_char c :: nat) \<le> 57)"

text \<open>
  The white space \<^verbatim>\<open>float\<close> and \<^verbatim>\<open>int\<close> strip from both ends: tab to carriage return,
  space, and the two Latin-1 spaces U+0085 and U+00A0.
\<close>

definition is_space :: "char \<Rightarrow> bool" where
  "is_space c =
     (let n = (of_char c :: nat)
      in (9 \<le> n \<and> n \<le> 13) \<or> n = 32 \<or> n = 133 \<or> n = 160)"

definition strip :: "string \<Rightarrow> string" where
  "strip s = rev (dropWhile is_space (rev (dropWhile is_space s)))"

subsection \<open>\<^verbatim>\<open>str.split(sep)\<close> with a one-character separator\<close>

fun split_on :: "char \<Rightarrow> string \<Rightarrow> string list" where
  "split_on sep [] = [[]]"
| "split_on sep (c # cs) =
     (if c = sep then [] # split_on sep cs
      else (case split_on sep cs of
              [] \<Rightarrow> [[c]]
            | p # ps \<Rightarrow> (c # p) # ps))"

subsection \<open>Numerals: digits, underscores, signs\<close>

definition digit_val :: "char \<Rightarrow> int" where
  "digit_val c = of_char c - 48"

definition digits_val :: "string \<Rightarrow> int" where
  "digits_val ds = foldl (\<lambda>n c. 10 * n + digit_val c) 0 ds"

text \<open>
  Python allows one underscore between two digits of a numeral string. The conversion
  drops them, and fails on an underscore that does not follow a digit, does not precede
  one, or ends the string. The first argument is the previous character.
\<close>

fun drop_underscores :: "char \<Rightarrow> string \<Rightarrow> string option" where
  "drop_underscores prev [] = (if prev = CHR ''_'' then None else Some [])"
| "drop_underscores prev (c # cs) =
     (if c = CHR ''_'' then (if is_digit prev then drop_underscores c cs else None)
      else if prev = CHR ''_'' \<and> \<not> is_digit c then None
      else map_option ((#) c) (drop_underscores c cs))"

definition take_sign :: "string \<Rightarrow> bool \<times> string" where
  "take_sign s =
     (case s of
        [] \<Rightarrow> (False, [])
      | c # cs \<Rightarrow>
          if c = CHR ''-'' then (True, cs)
          else if c = CHR ''+'' then (False, cs)
          else (False, s))"

subsection \<open>\<^verbatim>\<open>int(str)\<close>\<close>

text \<open>
  CPython (3.11 and later, default settings) refuses a decimal string of more than 4300
  digits with a \<^verbatim>\<open>ValueError\<close>.
\<close>

definition int_max_str_digits :: nat where
  "int_max_str_digits = 4300"

definition py_int :: "string \<Rightarrow> exn + int" where
  "py_int s =
     (case drop_underscores (CHR 0x00) (strip s) of
        None \<Rightarrow> Inl ValueError
      | Some t \<Rightarrow>
          (let (neg, ds) = take_sign t
           in if ds \<noteq> [] \<and> list_all is_digit ds \<and> length ds \<le> int_max_str_digits
              then Inr (if neg then - digits_val ds else digits_val ds)
              else Inl ValueError))"

subsection \<open>Floats: binary64 values, rounding, \<^verbatim>\<open>float(str)\<close>, \<^verbatim>\<open>int(float)\<close>\<close>

text \<open>
  A Python float is an IEEE 754 binary64 value: a finite one is a rational, the rest
  are the two infinities and NaN. The sign of zero is not kept: \<^verbatim>\<open>int\<close> is the only
  reader of the float here, and \<^verbatim>\<open>int(-0.0)\<close> is 0.
\<close>

datatype pyfloat = Fin rat | PosInf | NegInf | NaN

definition pow2 :: "int \<Rightarrow> rat" where
  "pow2 e = (if 0 \<le> e then 2 ^ nat e else 1 / 2 ^ nat (- e))"

text \<open>The number of binary digits of a positive integer (Python's \<^verbatim>\<open>int.bit_length\<close>).\<close>

function bit_length :: "int \<Rightarrow> int" where
  "bit_length n = (if 0 < n then bit_length (n div 2) + 1 else 0)"
  by pat_completeness auto
termination
  by (relation "measure nat") auto

text \<open>
  \<open>ilog2 a\<close> is the \<open>e\<close> with \<open>2\<^sup>e \<le> a < 2\<^sup>e\<^sup>+\<^sup>1\<close>, for \<open>a > 0\<close>: one less than the
  number of binary digits of \<open>\<lfloor>a\<rfloor>\<close> from 1 on; below 1, the least \<open>k\<close> with
  \<open>1 / a \<le> 2\<^sup>k\<close>, negated.
\<close>

definition ilog2 :: "rat \<Rightarrow> int" where
  "ilog2 a =
     (if 1 \<le> a then bit_length \<lfloor>a\<rfloor> - 1
      else - bit_length (\<lceil>1 / a\<rceil> - 1))"

definition round_half_even :: "rat \<Rightarrow> int" where
  "round_half_even r =
     (let f = \<lfloor>r\<rfloor>; d = r - of_int f
      in if d < 1 / 2 then f
         else if 1 / 2 < d then f + 1
         else if even f then f else f + 1)"

text \<open>
  Rounding a rational to the nearest binary64 value, ties to even. With
  \<open>2\<^sup>e \<le> \<bar>q\<bar> < 2\<^sup>e\<^sup>+\<^sup>1\<close> (and \<open>e\<close> at least \<open>-1022\<close>, the subnormal range below), the values
  are the multiples of \<open>2\<^sup>e\<^sup>-\<^sup>5\<^sup>2\<close>; \<open>n\<close> is the nearest multiple, at most \<open>2\<^sup>5\<^sup>3\<close>. The
  result is infinite when its exponent (\<open>e + 1\<close> if \<open>n\<close> reached \<open>2\<^sup>5\<^sup>3\<close>, else \<open>e\<close>)
  exceeds 1023, that is when the rounded magnitude is \<open>2\<^sup>1\<^sup>0\<^sup>2\<^sup>4\<close> or more.
\<close>

definition fl_round :: "rat \<Rightarrow> pyfloat" where
  "fl_round q =
     (if q = 0 then Fin 0
      else
        let a = \<bar>q\<bar>;
            e = max (ilog2 a) (- 1022);
            ulp = pow2 (e - 52);
            n = round_half_even (a / ulp);
            r = of_int n * ulp
        in if 1023 < (if n = 2 ^ 53 then e + 1 else e)
           then (if q < 0 then NegInf else PosInf)
           else Fin (if q < 0 then - r else r))"

text \<open>The source's \<^verbatim>\<open>float(initial_time_str) * 60\<close>: the product, rounded once.\<close>

definition float_mul_int :: "pyfloat \<Rightarrow> int \<Rightarrow> pyfloat" where
  "float_mul_int x k =
     (case x of
        Fin a \<Rightarrow> fl_round (a * of_int k)
      | PosInf \<Rightarrow> (if k = 0 then NaN else if 0 < k then PosInf else NegInf)
      | NegInf \<Rightarrow> (if k = 0 then NaN else if 0 < k then NegInf else PosInf)
      | NaN \<Rightarrow> NaN)"

text \<open>
  \<^verbatim>\<open>int(x)\<close> of a float truncates toward zero; an infinity raises \<^verbatim>\<open>OverflowError\<close>,
  NaN raises \<^verbatim>\<open>ValueError\<close>.
\<close>

definition trunc_rat :: "rat \<Rightarrow> int" where
  "trunc_rat a = (if 0 \<le> a then \<lfloor>a\<rfloor> else \<lceil>a\<rceil>)"

definition int_of_float :: "pyfloat \<Rightarrow> exn + int" where
  "int_of_float x =
     (case x of
        Fin a \<Rightarrow> Inr (trunc_rat a)
      | PosInf \<Rightarrow> Inl OverflowError
      | NegInf \<Rightarrow> Inl OverflowError
      | NaN \<Rightarrow> Inl ValueError)"

text \<open>
  The decimal value of a float literal without sign: integer digits, an optional point
  and fraction digits (one digit at least in all), an optional exponent
  \<^verbatim>\<open>e\<close>/\<^verbatim>\<open>E\<close> with optional sign and at least one digit.
\<close>

definition parse_exponent :: "string \<Rightarrow> int option" where
  "parse_exponent s =
     (case s of
        [] \<Rightarrow> Some 0
      | c # cs \<Rightarrow>
          if c = CHR ''e'' \<or> c = CHR ''E'' then
            (let (neg, ds) = take_sign cs
             in if ds \<noteq> [] \<and> list_all is_digit ds
                then Some (if neg then - digits_val ds else digits_val ds)
                else None)
          else None)"

definition pow10 :: "int \<Rightarrow> rat" where
  "pow10 e = (if 0 \<le> e then 10 ^ nat e else 1 / 10 ^ nat (- e))"

definition parse_decimal :: "string \<Rightarrow> rat option" where
  "parse_decimal s =
     (let ip = takeWhile is_digit s;
          r1 = dropWhile is_digit s;
          (fp, r2) =
            (case r1 of
               [] \<Rightarrow> ([], [])
             | c # cs \<Rightarrow>
                 if c = CHR ''.'' then (takeWhile is_digit cs, dropWhile is_digit cs)
                 else ([], r1))
      in if ip = [] \<and> fp = [] then None
         else (case parse_exponent r2 of
                 None \<Rightarrow> None
               | Some ex \<Rightarrow>
                   Some (of_int (digits_val (ip @ fp)) * pow10 (ex - int (length fp)))))"

text \<open>
  \<^verbatim>\<open>float(str)\<close>: strip, drop the underscores, read the sign, then \<^verbatim>\<open>inf\<close>,
  \<^verbatim>\<open>infinity\<close> or \<^verbatim>\<open>nan\<close> in any letter case, or a decimal literal rounded to binary64.
  A string it cannot read raises \<^verbatim>\<open>ValueError\<close>; a literal too large becomes infinity.
\<close>

definition py_float :: "string \<Rightarrow> exn + pyfloat" where
  "py_float s =
     (case drop_underscores (CHR 0x00) (strip s) of
        None \<Rightarrow> Inl ValueError
      | Some t \<Rightarrow>
          (let (neg, body) = take_sign t
           in if lower body = ''inf'' \<or> lower body = ''infinity''
              then Inr (if neg then NegInf else PosInf)
              else if lower body = ''nan'' then Inr NaN
              else (case parse_decimal body of
                      None \<Rightarrow> Inl ValueError
                    | Some v \<Rightarrow> Inr (fl_round (if neg then - v else v)))))"

section \<open>The data the manager works on\<close>

text \<open>
  \<^verbatim>\<open>Game_Information\<close> (\<^verbatim>\<open>botli_dataclasses\<close>): the fields the modelled methods read. The
  titles and ratings are read only by helpers no operation calls
  (\<^verbatim>\<open>_is_opponent_bot\<close>, \<^verbatim>\<open>_get_our_rating\<close>, \<^verbatim>\<open>_get_opponent_rating\<close>).
\<close>

record Game_Information =
  white_name :: string
  black_name :: string
  tc_str :: string
  rated :: bool
  variant :: string

text \<open>\<^verbatim>\<open>Challenge_Color\<close> (\<^verbatim>\<open>enums\<close>): the two members the source names.\<close>

datatype Challenge_Color = WHITE | BLACK

text \<open>
  \<^verbatim>\<open>Challenge_Request\<close> (\<^verbatim>\<open>botli_dataclasses\<close>), its fields in the order of the source's
  positional call: opponent, initial time, increment, rated, color, variant, timeout.
\<close>

record Challenge_Request =
  opponent_username :: string
  initial_time :: int
  increment :: int
  cr_rated :: bool
  color :: Challenge_Color
  cr_variant :: string
  timeout :: int

text \<open>The section \<^verbatim>\<open>config.rematch\<close> of the configuration.\<close>

record Rematch_Config =
  delay_seconds :: int
  timeout_seconds :: int

text \<open>
  The attributes of a \<^verbatim>\<open>Rematch_Manager\<close> (the \<^verbatim>\<open>api\<close> handle is never used).
  \<^verbatim>\<open>rematch_counts\<close> is a dict from the lower-cased opponent name to a Python int.
\<close>

record Rematch_Manager =
  username :: string
  config :: Rematch_Config
  rematch_counts :: "string \<rightharpoonup> int"
  last_game_info :: "Game_Information option"
  pending_rematch :: "string option"
  rematch_offered :: bool

text \<open>\<^verbatim>\<open>__init__\<close> (lines 13-22).\<close>

definition init :: "Rematch_Config \<Rightarrow> string \<Rightarrow> Rematch_Manager" where
  "init cfg name =
     \<lparr>username = name, config = cfg, rematch_counts = Map.empty,
      last_game_info = None, pending_rematch = None, rematch_offered = False\<rparr>"

section \<open>The operations\<close>

text \<open>\<^verbatim>\<open>_get_opponent_name\<close> (lines 113-119).\<close>

definition get_opponent_name :: "Rematch_Manager \<Rightarrow> Game_Information \<Rightarrow> string option" where
  "get_opponent_name m game_info =
     (if lower (white_name game_info) = lower (username m) then Some (black_name game_info)
      else if lower (black_name game_info) = lower (username m) then Some (white_name game_info)
      else None)"

text \<open>
  \<^verbatim>\<open>should_offer_rematch\<close> (lines 24-40). The source's \<^verbatim>\<open>game_result\<close> and \<^verbatim>\<open>winner\<close>
  arguments are never read. \<^verbatim>\<open>not opponent_name\<close> holds for \<^verbatim>\<open>None\<close> and for the empty
  string.
\<close>

definition should_offer_rematch :: "Rematch_Manager \<Rightarrow> Game_Information \<Rightarrow> bool" where
  "should_offer_rematch m game_info =
     (case get_opponent_name m game_info of
        None \<Rightarrow> False
      | Some opponent_name \<Rightarrow>
          if opponent_name = [] then False
          else if pending_rematch m = Some (lower opponent_name) then False
          else True)"

text \<open>
  Modelled from the spec: the enumeration \<^verbatim>\<open>Variant\<close> of \<^verbatim>\<open>enums.py\<close>, which is not among
  the sources. The spec says that the variant identifier is mapped to the enumeration
  and that an unrecognized identifier makes the construction fail. The identifiers the
  enumeration has are a parameter, \<open>variants\<close>; the member found is named by its
  identifier, and a miss is the \<^verbatim>\<open>ValueError\<close> an \<^verbatim>\<open>Enum\<close> lookup raises.
\<close>

definition Variant :: "string list \<Rightarrow> string \<Rightarrow> exn + string" where
  "Variant variants v = (if v \<in> set variants then Inr v else Inl ValueError)"

text \<open>
  The time-control lines of \<^verbatim>\<open>_create_rematch_challenge\<close> (157-159), in the source's
  order of evaluation: the split must give two parts (the tuple assignment raises
  \<^verbatim>\<open>ValueError\<close> otherwise), then \<^verbatim>\<open>int(float(initial_time_str) * 60)\<close>, then
  \<^verbatim>\<open>int(increment_str)\<close>.
\<close>

definition parse_time_control :: "string \<Rightarrow> exn + (int \<times> int)" where
  "parse_time_control tc =
     (case split_on (CHR ''+'') tc of
        [initial_time_str, increment_str] \<Rightarrow>
          (case py_float initial_time_str of
             Inl e \<Rightarrow> Inl e
           | Inr x \<Rightarrow>
               (case int_of_float (float_mul_int x 60) of
                  Inl e \<Rightarrow> Inl e
                | Inr initial \<Rightarrow>
                    (case py_int increment_str of
                       Inl e \<Rightarrow> Inl e
                     | Inr incr \<Rightarrow> Inr (initial, incr))))
      | _ \<Rightarrow> Inl ValueError)"

text \<open>The body of the \<^verbatim>\<open>try\<close> block of \<^verbatim>\<open>_create_rematch_challenge\<close> (lines 150-172).\<close>

definition build_challenge ::
  "string list \<Rightarrow> Rematch_Manager \<Rightarrow> Game_Information \<Rightarrow> string \<Rightarrow> exn + Challenge_Request" where
  "build_challenge variants m game_info opponent_name =
     (let col = (if lower (white_name game_info) = lower (username m) then BLACK else WHITE)
      in case parse_time_control (tc_str game_info) of
           Inl e \<Rightarrow> Inl e
         | Inr (initial, incr) \<Rightarrow>
             (case Variant variants (variant game_info) of
                Inl e \<Rightarrow> Inl e
              | Inr var \<Rightarrow>
                  Inr \<lparr>opponent_username = opponent_name, initial_time = initial,
                       increment = incr, cr_rated = rated game_info, color = col,
                       cr_variant = var, timeout = timeout_seconds (config m)\<rparr>))"

text \<open>
  \<^verbatim>\<open>_create_rematch_challenge\<close> (lines 147-175): \<^verbatim>\<open>except (ValueError, AttributeError)\<close>
  turns a \<^verbatim>\<open>ValueError\<close> into the result \<^verbatim>\<open>None\<close>; any other exception leaves the
  method (\<open>Inl\<close>).
\<close>

definition create_rematch_challenge ::
  "string list \<Rightarrow> Rematch_Manager \<Rightarrow> Game_Information \<Rightarrow> string
     \<Rightarrow> exn + Challenge_Request option" where
  "create_rematch_challenge variants m game_info opponent_name =
     (case build_challenge variants m game_info opponent_name of
        Inl ValueError \<Rightarrow> Inr None
      | Inl OverflowError \<Rightarrow> Inl OverflowError
      | Inr request \<Rightarrow> Inr (Some request))"

text \<open>
  The wait of \<^verbatim>\<open>offer_rematch\<close> (lines 49-50): the seconds it sleeps, if it does. The
  sleep touches no attribute; what other tasks do meanwhile is outside this sequential
  model.
\<close>

definition offer_delay :: "Rematch_Manager \<Rightarrow> int option" where
  "offer_delay m =
     (if 0 < delay_seconds (config m) then Some (delay_seconds (config m)) else None)"

text \<open>
  \<^verbatim>\<open>offer_rematch\<close> (lines 42-70): the returned flag and the manager afterwards. An
  exception leaves the method before any assignment, so \<open>Inl\<close> carries no manager: it
  is the one before the call.
\<close>

definition offer_rematch ::
  "string list \<Rightarrow> Game_Information \<Rightarrow> Rematch_Manager \<Rightarrow> exn + (bool \<times> Rematch_Manager)" where
  "offer_rematch variants game_info m =
     (case get_opponent_name m game_info of
        None \<Rightarrow> Inr (False, m)
      | Some opponent_name \<Rightarrow>
          if opponent_name = [] then Inr (False, m)
          else
            (case create_rematch_challenge variants m game_info opponent_name of
               Inl e \<Rightarrow> Inl e
             | Inr None \<Rightarrow> Inr (False, m)
             | Inr (Some challenge_request) \<Rightarrow>
                 (let opponent_key = lower opponent_name;
                      n = (case rematch_counts m opponent_key of None \<Rightarrow> 0 | Some c \<Rightarrow> c)
                  in Inr (True,
                          m\<lparr>rematch_counts := (rematch_counts m)(opponent_key \<mapsto> n + 1),
                            pending_rematch := Some opponent_key,
                            last_game_info := Some game_info,
                            rematch_offered := False\<rparr>))))"

text \<open>\<^verbatim>\<open>on_rematch_accepted\<close> (lines 72-78); the count is read for the log only.\<close>

definition on_rematch_accepted :: "string \<Rightarrow> Rematch_Manager \<Rightarrow> Rematch_Manager" where
  "on_rematch_accepted opponent_name m = m\<lparr>pending_rematch := None, rematch_offered := False\<rparr>"

text \<open>\<^verbatim>\<open>on_rematch_declined\<close> (lines 80-86).\<close>

definition on_rematch_declined :: "string \<Rightarrow> Rematch_Manager \<Rightarrow> Rematch_Manager" where
  "on_rematch_declined opponent_name m = m\<lparr>pending_rematch := None, rematch_offered := False\<rparr>"

text \<open>\<^verbatim>\<open>on_game_finished\<close> (lines 88-94).\<close>

definition on_game_finished :: "string \<Rightarrow> Rematch_Manager \<Rightarrow> Rematch_Manager" where
  "on_game_finished opponent_name m = m\<lparr>rematch_offered := False\<rparr>"

text \<open>\<^verbatim>\<open>clear_pending_rematch\<close> (lines 96-105).\<close>

definition clear_pending_rematch :: "Rematch_Manager \<Rightarrow> Rematch_Manager" where
  "clear_pending_rematch m =
     m\<lparr>pending_rematch := None, last_game_info := None, rematch_offered := False\<rparr>"

text \<open>
  \<^verbatim>\<open>get_rematch_challenge_request\<close> (lines 107-111). \<^verbatim>\<open>not self.pending_rematch\<close> holds
  for \<^verbatim>\<open>None\<close> and for the empty string; a \<^verbatim>\<open>Game_Information\<close> object is always
  true. The request is built for the pending key, the lower-cased name.
\<close>

definition get_rematch_challenge_request ::
  "string list \<Rightarrow> Rematch_Manager \<Rightarrow> exn + Challenge_Request option" where
  "get_rematch_challenge_request variants m =
     (case pending_rematch m of
        None \<Rightarrow> Inr None
      | Some key \<Rightarrow>
          if key = [] then Inr None
          else (case last_game_info m of
                  None \<Rightarrow> Inr None
                | Some game_info \<Rightarrow> create_rematch_challenge variants m game_info key))"

section \<open>The states a manager can be in\<close>

text \<open>
  The managers that \<^verbatim>\<open>__init__\<close> and the public methods produce, for a fixed
  configuration, user name and set of variants. \<^verbatim>\<open>should_offer_rematch\<close> and
  \<^verbatim>\<open>get_rematch_challenge_request\<close> assign nothing, and an \<^verbatim>\<open>offer_rematch\<close> that raises
  leaves the manager as it was.
\<close>

inductive reachable :: "string list \<Rightarrow> Rematch_Config \<Rightarrow> string \<Rightarrow> Rematch_Manager \<Rightarrow> bool"
  for variants :: "string list" and cfg :: Rematch_Config and name :: string
where
  reachable_init: "reachable variants cfg name (init cfg name)"
| reachable_offer:
    "reachable variants cfg name m \<Longrightarrow> offer_rematch variants game_info m = Inr (b, m')
       \<Longrightarrow> reachable variants cfg name m'"
| reachable_accepted:
    "reachable variants cfg name m \<Longrightarrow> reachable variants cfg name (on_rematch_accepted opp m)"
| reachable_declined:
    "reachable variants cfg name m \<Longrightarrow> reachable variants cfg name (on_rematch_declined opp m)"
| reachable_finished:
    "reachable variants cfg name m \<Longrightarrow> reachable variants cfg name (on_game_finished opp m)"
| reachable_clear:
    "reachable variants cfg name m \<Longrightarrow> reachable variants cfg name (clear_pending_rematch m)"

section \<open>A session used as example\<close>

text \<open>
  The bot \<^verbatim>\<open>NS2Bot\<close> has played white against \<^verbatim>\<open>Alice\<close>: rated, three minutes plus two
  seconds, standard chess. \<open>alice_pending n\<close> is the manager with the rematch offer to
  Alice outstanding and \<open>n\<close> offers counted; \<open>bob_game\<close> is a later game against
  \<^verbatim>\<open>Bob\<close> with the bot as black, \<open>others_game\<close> a game the bot did not play.
\<close>

definition bot_config :: Rematch_Config where
  "bot_config = \<lparr>delay_seconds = 0, timeout_seconds = 30\<rparr>"

definition bot_variants :: "string list" where
  "bot_variants = [''standard'', ''chess960'']"

definition ns2_bot :: Rematch_Manager where
  "ns2_bot = init bot_config ''NS2Bot''"

definition alice_game :: Game_Information where
  "alice_game =
     \<lparr>white_name = ''ns2bot'', black_name = ''Alice'', tc_str = ''3+2'', rated = True,
      variant = ''standard''\<rparr>"

definition bob_game :: Game_Information where
  "bob_game =
     \<lparr>white_name = ''Bob'', black_name = ''NS2Bot'', tc_str = ''5+3'', rated = False,
      variant = ''chess960''\<rparr>"

definition others_game :: Game_Information where
  "others_game =
     \<lparr>white_name = ''Carol'', black_name = ''Dave'', tc_str = ''3+2'', rated = True,
      variant = ''standard''\<rparr>"

definition alice_pending :: "int \<Rightarrow> Rematch_Manager" where
  "alice_pending n =
     ns2_bot\<lparr>rematch_counts := [''alice'' \<mapsto> n], last_game_info := Some alice_game,
         pending_rematch := Some ''alice''\<rparr>"

section \<open>Facts about the conversions and the operations\<close>

lemma lower_Nil [simp]: "lower [] = []"
  by (simp add: lower_def)

lemma lower_eq_Nil [simp]: "lower s = [] \<longleftrightarrow> s = []"
  by (simp add: lower_def)

lemma lower_NS2Bot: "lower ''NS2Bot'' = ''ns2bot''"
  by code_simp

lemma lower_ns2bot: "lower ''ns2bot'' = ''ns2bot''"
  by code_simp

lemma lower_Alice: "lower ''Alice'' = ''alice''"
  by code_simp

lemma lower_Bob: "lower ''Bob'' = ''bob''"
  by code_simp

lemma lower_Carol: "lower ''Carol'' = ''carol''"
  by code_simp

lemma lower_Dave: "lower ''Dave'' = ''dave''"
  by code_simp

lemma parse_3_2: "parse_time_control ''3+2'' = Inr (180, 2)"
  by code_simp

lemma parse_5_3: "parse_time_control ''5+3'' = Inr (300, 3)"
  by code_simp

lemma parse_35_2: "parse_time_control ''3.5+2'' = Inr (210, 2)"
  by code_simp

lemma parse_82_0: "parse_time_control ''8.2+0'' = Inr (491, 0)"
  by code_simp

lemma parse_inf_abc: "parse_time_control ''inf+abc'' = Inl OverflowError"
  by code_simp

lemma parse_bad: "parse_time_control ''bad'' = Inl ValueError"
  by code_simp

lemma build_challenge_cong:
  "username m' = username m \<Longrightarrow> config m' = config m \<Longrightarrow>
   build_challenge vs m' gi n = build_challenge vs m gi n"
  unfolding build_challenge_def by (simp cong: sum.case_cong prod.case_cong)

lemma create_rematch_challenge_cong:
  "username m' = username m \<Longrightarrow> config m' = config m \<Longrightarrow>
   create_rematch_challenge vs m' gi n = create_rematch_challenge vs m gi n"
  using build_challenge_cong [of m' m vs gi n] by (simp add: create_rematch_challenge_def)

lemma get_opponent_name_cong:
  "username m' = username m \<Longrightarrow> get_opponent_name m' gi = get_opponent_name m gi"
  by (simp add: get_opponent_name_def)

lemma build_challenge_Inr:
  "parse_time_control (tc_str gi) = Inr (i, j) \<Longrightarrow> variant gi \<in> set vs \<Longrightarrow>
   build_challenge vs m gi n =
     Inr \<lparr>opponent_username = n, initial_time = i, increment = j, cr_rated = rated gi,
          color = (if lower (white_name gi) = lower (username m) then BLACK else WHITE),
          cr_variant = variant gi, timeout = timeout_seconds (config m)\<rparr>"
  by (simp add: build_challenge_def Variant_def)

lemma build_challenge_InrD:
  assumes "build_challenge vs m gi n = Inr r"
  shows "parse_time_control (tc_str gi) = Inr (initial_time r, increment r) \<and> variant gi \<in> set vs"
proof (cases "parse_time_control (tc_str gi)")
  case (Inl e)
  with assms show ?thesis by (simp add: build_challenge_def)
next
  case (Inr p)
  obtain i j where p: "p = (i, j)" by (cases p)
  show ?thesis
  proof (cases "variant gi \<in> set vs")
    case True
    from build_challenge_Inr [OF Inr [unfolded p] True, of m n] assms
    show ?thesis using Inr p True by auto
  next
    case False
    with assms Inr p show ?thesis by (simp add: build_challenge_def Variant_def)
  qed
qed

lemma build_challenge_Inl_parse:
  "parse_time_control (tc_str gi) = Inl e \<Longrightarrow> build_challenge vs m gi n = Inl e"
  by (simp add: build_challenge_def)

lemma build_challenge_Inl_variant:
  "parse_time_control (tc_str gi) = Inr p \<Longrightarrow> variant gi \<notin> set vs \<Longrightarrow>
   build_challenge vs m gi n = Inl ValueError"
  by (cases p) (simp add: build_challenge_def Variant_def)

lemma create_Some_iff:
  "create_rematch_challenge vs m gi n = Inr (Some r) \<longleftrightarrow> build_challenge vs m gi n = Inr r"
  by (simp add: create_rematch_challenge_def split: sum.splits exn.splits)

lemma create_None_iff:
  "create_rematch_challenge vs m gi n = Inr None \<longleftrightarrow> build_challenge vs m gi n = Inl ValueError"
  by (simp add: create_rematch_challenge_def split: sum.splits exn.splits)

lemma create_Inl_iff:
  "create_rematch_challenge vs m gi n = Inl e \<longleftrightarrow>
     e = OverflowError \<and> build_challenge vs m gi n = Inl OverflowError"
  by (auto simp add: create_rematch_challenge_def split: sum.splits exn.splits)

lemma offer_rematch_TrueI:
  assumes "get_opponent_name m gi = Some n" and "n \<noteq> []"
    and "build_challenge vs m gi n = Inr r"
  shows "offer_rematch vs gi m =
     Inr (True,
          m\<lparr>rematch_counts :=
              (rematch_counts m)(lower n \<mapsto>
                 (case rematch_counts m (lower n) of None \<Rightarrow> 0 | Some c \<Rightarrow> c) + 1),
            pending_rematch := Some (lower n), last_game_info := Some gi,
            rematch_offered := False\<rparr>)"
  using assms by (simp add: offer_rematch_def create_rematch_challenge_def Let_def)

lemma offer_rematch_TrueD:
  assumes "offer_rematch vs gi m = Inr (True, m')"
  shows "\<exists>n r. get_opponent_name m gi = Some n \<and> n \<noteq> [] \<and>
           build_challenge vs m gi n = Inr r \<and>
           m' = m\<lparr>rematch_counts :=
                     (rematch_counts m)(lower n \<mapsto>
                        (case rematch_counts m (lower n) of None \<Rightarrow> 0 | Some c \<Rightarrow> c) + 1),
                   pending_rematch := Some (lower n), last_game_info := Some gi,
                   rematch_offered := False\<rparr>"
proof (cases "get_opponent_name m gi")
  case None
  with assms show ?thesis by (simp add: offer_rematch_def)
next
  case (Some n)
  show ?thesis
  proof (cases "n = []")
    case True
    with assms Some show ?thesis by (simp add: offer_rematch_def)
  next
    case False
    show ?thesis
    proof (cases "create_rematch_challenge vs m gi n")
      case (Inl e)
      with assms Some False show ?thesis by (simp add: offer_rematch_def)
    next
      case (Inr o_r)
      show ?thesis
      proof (cases o_r)
        case None
        with assms Some False Inr show ?thesis by (simp add: offer_rematch_def)
      next
        case (Some r)
        with Inr have b: "build_challenge vs m gi n = Inr r" by (simp add: create_Some_iff)
        from offer_rematch_TrueI [OF \<open>get_opponent_name m gi = Some n\<close> False b] assms
        show ?thesis using \<open>get_opponent_name m gi = Some n\<close> False b by auto
      qed
    qed
  qed
qed

lemma offer_rematch_FalseD:
  assumes "offer_rematch vs gi m = Inr (False, m')"
  shows "m' = m"
  using assms
  by (simp add: offer_rematch_def Let_def split: option.splits if_splits sum.splits)

lemma get_opponent_name_SomeD:
  assumes "get_opponent_name m gi = Some n"
  shows "lower (white_name gi) = lower (username m) \<or> lower (black_name gi) = lower (username m)"
  using assms by (simp add: get_opponent_name_def split: if_splits)

lemma get_opponent_name_None_iff:
  "get_opponent_name m gi = None \<longleftrightarrow>
     lower (white_name gi) \<noteq> lower (username m) \<and> lower (black_name gi) \<noteq> lower (username m)"
  by (simp add: get_opponent_name_def)

lemma offer_rematch_username_config:
  assumes "offer_rematch vs gi m = Inr (b, m')"
  shows "username m' = username m \<and> config m' = config m"
proof (cases b)
  case True
  with assms offer_rematch_TrueD [of vs gi m m'] show ?thesis by auto
next
  case False
  with assms offer_rematch_FalseD [of vs gi m m'] show ?thesis by simp
qed

lemma reachable_username_config:
  assumes "reachable vs cfg name m"
  shows "username m = name \<and> config m = cfg"
  using assms
proof (induction rule: reachable.induct)
  case reachable_init
  show ?case by (simp add: init_def)
next
  case (reachable_offer m game_info b m')
  then show ?case using offer_rematch_username_config [of vs game_info m b m'] by simp
next
  case (reachable_accepted m opp)
  then show ?case by (simp add: on_rematch_accepted_def)
next
  case (reachable_declined m opp)
  then show ?case by (simp add: on_rematch_declined_def)
next
  case (reachable_finished m opp)
  then show ?case by (simp add: on_game_finished_def)
next
  case (reachable_clear m)
  then show ?case by (simp add: clear_pending_rematch_def)
qed

text \<open>
  What a pending key is backed by: the key is not empty, and the stored snapshot is a
  game of the bot whose time control and variant were converted without error.
\<close>

lemma reachable_pending:
  assumes "reachable vs cfg name m" and "pending_rematch m = Some k"
  shows "k \<noteq> [] \<and>
         (\<exists>gi p. last_game_info m = Some gi \<and>
            (lower (white_name gi) = lower name \<or> lower (black_name gi) = lower name) \<and>
            parse_time_control (tc_str gi) = Inr p \<and> variant gi \<in> set vs)"
  using assms
proof (induction arbitrary: k rule: reachable.induct)
  case reachable_init
  then show ?case by (simp add: init_def)
next
  case (reachable_offer m game_info b m')
  show ?case
  proof (cases b)
    case False
    with reachable_offer.hyps(2) have "m' = m" by (simp add: offer_rematch_FalseD)
    with reachable_offer show ?thesis by simp
  next
    case True
    with reachable_offer.hyps(2) have o: "offer_rematch vs game_info m = Inr (True, m')"
      by simp
    from offer_rematch_TrueD [OF o] obtain n r where
      n: "get_opponent_name m game_info = Some n" "n \<noteq> []"
      and r: "build_challenge vs m game_info n = Inr r"
      and m': "m' = m\<lparr>rematch_counts :=
                     (rematch_counts m)(lower n \<mapsto>
                        (case rematch_counts m (lower n) of None \<Rightarrow> 0 | Some c \<Rightarrow> c) + 1),
                   pending_rematch := Some (lower n), last_game_info := Some game_info,
                   rematch_offered := False\<rparr>"
      by blast
    from reachable_username_config [OF reachable_offer.hyps(1)]
    have u: "username m = name" by simp
    from get_opponent_name_SomeD [OF n(1)] u
    have names: "lower (white_name game_info) = lower name \<or> lower (black_name game_info) = lower name"
      by simp
    from build_challenge_InrD [OF r]
    have p: "parse_time_control (tc_str game_info) = Inr (initial_time r, increment r)"
      and v: "variant game_info \<in> set vs" by simp_all
    from reachable_offer.prems m' have k: "k = lower n" by simp
    from k n(2) have "k \<noteq> []" by simp
    moreover from m' have "last_game_info m' = Some game_info" by simp
    ultimately show ?thesis using names p v by blast
  qed
next
  case (reachable_accepted m opp)
  then show ?case by (simp add: on_rematch_accepted_def)
next
  case (reachable_declined m opp)
  then show ?case by (simp add: on_rematch_declined_def)
next
  case (reachable_finished m opp)
  then show ?case by (simp add: on_game_finished_def)
next
  case (reachable_clear m)
  then show ?case by (simp add: clear_pending_rematch_def)
qed

subsection \<open>The example session, step by step\<close>

lemma opponent_alice: "get_opponent_name (alice_pending n) alice_game = Some ''Alice''"
  by (simp add: get_opponent_name_def alice_pending_def ns2_bot_def init_def alice_game_def
      lower_NS2Bot lower_ns2bot)

lemma opponent_alice_bot: "get_opponent_name ns2_bot alice_game = Some ''Alice''"
  by (simp add: get_opponent_name_def ns2_bot_def init_def alice_game_def lower_NS2Bot lower_ns2bot)

lemma opponent_bob: "get_opponent_name (alice_pending n) bob_game = Some ''Bob''"
  by (simp add: get_opponent_name_def alice_pending_def ns2_bot_def init_def bob_game_def
      lower_NS2Bot lower_Bob)

lemma build_alice:
  "build_challenge bot_variants m alice_game n =
     Inr \<lparr>opponent_username = n, initial_time = 180, increment = 2, cr_rated = True,
          color = (if ''ns2bot'' = lower (username m) then BLACK else WHITE),
          cr_variant = ''standard'', timeout = timeout_seconds (config m)\<rparr>"
proof -
  have "parse_time_control (tc_str alice_game) = Inr (180, 2)"
    by (simp add: alice_game_def parse_3_2)
  moreover have "variant alice_game \<in> set bot_variants"
    by (simp add: alice_game_def bot_variants_def)
  ultimately show ?thesis
    using build_challenge_Inr [of alice_game 180 2 bot_variants m n]
    by (simp add: alice_game_def lower_ns2bot)
qed

lemma build_bob:
  "build_challenge bot_variants m bob_game n =
     Inr \<lparr>opponent_username = n, initial_time = 300, increment = 3, cr_rated = False,
          color = (if ''bob'' = lower (username m) then BLACK else WHITE),
          cr_variant = ''chess960'', timeout = timeout_seconds (config m)\<rparr>"
proof -
  have "parse_time_control (tc_str bob_game) = Inr (300, 3)"
    by (simp add: bob_game_def parse_5_3)
  moreover have "variant bob_game \<in> set bot_variants"
    by (simp add: bob_game_def bot_variants_def)
  ultimately show ?thesis
    using build_challenge_Inr [of bob_game 300 3 bot_variants m n]
    by (simp add: bob_game_def lower_Bob)
qed

lemma offer_alice_first: "offer_rematch bot_variants alice_game ns2_bot = Inr (True, alice_pending 1)"
proof -
  have "''Alice'' \<noteq> []" by simp
  from offer_rematch_TrueI [OF opponent_alice_bot this build_alice]
  show ?thesis by (simp add: lower_Alice alice_pending_def ns2_bot_def init_def)
qed

lemma offer_alice_again:
  "offer_rematch bot_variants alice_game (alice_pending n) = Inr (True, alice_pending (n + 1))"
proof -
  have "''Alice'' \<noteq> []" by simp
  from offer_rematch_TrueI [OF opponent_alice this build_alice]
  show ?thesis by (simp add: lower_Alice alice_pending_def ns2_bot_def init_def)
qed

lemma offer_bob:
  "offer_rematch bot_variants bob_game (alice_pending n) =
     Inr (True,
          ns2_bot\<lparr>rematch_counts := [''alice'' \<mapsto> n, ''bob'' \<mapsto> 1],
              last_game_info := Some bob_game, pending_rematch := Some ''bob''\<rparr>)"
proof -
  have "''Bob'' \<noteq> []" by simp
  from offer_rematch_TrueI [OF opponent_bob this build_bob]
  show ?thesis by (simp add: lower_Bob alice_pending_def ns2_bot_def init_def)
qed

lemma reachable_alice_pending:
  "reachable bot_variants bot_config ''NS2Bot'' (alice_pending 1)"
  using reachable_offer [OF reachable_init offer_alice_first [unfolded ns2_bot_def]] .

subsection \<open>Converting the time control\<close>

lemma split_on_absent: "sep \<notin> set s \<Longrightarrow> split_on sep s = [s]"
  by (induction s) auto

lemma parse_time_control_no_plus:
  "CHR ''+'' \<notin> set tc \<Longrightarrow> parse_time_control tc = Inl ValueError"
  by (simp add: parse_time_control_def split_on_absent)

lemma py_float_Inl: "py_float s = Inl e \<Longrightarrow> e = ValueError"
  by (auto simp: py_float_def Let_def split: option.splits prod.splits if_splits)

lemma py_int_Inl: "py_int s = Inl e \<Longrightarrow> e = ValueError"
  by (auto simp: py_int_def Let_def split: option.splits prod.splits if_splits)

lemma int_of_float_Inr_iff: "int_of_float x = Inr i \<longleftrightarrow> (\<exists>q. x = Fin q \<and> i = trunc_rat q)"
  by (cases x) (auto simp: int_of_float_def)

lemma int_of_float_Overflow_iff:
  "int_of_float x = Inl OverflowError \<longleftrightarrow> x = PosInf \<or> x = NegInf"
  by (cases x) (auto simp: int_of_float_def)

text \<open>\<^verbatim>\<open>int(x)\<close> drops the fraction: the result is toward zero from \<open>q\<close>, less than 1 away.\<close>

lemma trunc_rat_bounds:
  "\<bar>of_int (trunc_rat q)\<bar> \<le> \<bar>q\<bar> \<and> \<bar>q\<bar> < \<bar>of_int (trunc_rat q)\<bar> + 1"
proof (cases "0 \<le> q")
  case True
  then have "0 \<le> \<lfloor>q\<rfloor>" by simp
  with True show ?thesis by (simp add: trunc_rat_def) linarith
next
  case False
  then have "\<lceil>q\<rceil> \<le> 0" by (simp add: ceiling_le_iff)
  with False show ?thesis by (simp add: trunc_rat_def) linarith
qed

text \<open>
  When the conversion of the time control succeeds: two parts, a float, a finite
  product, and an integer; the initial time is the product with its fraction dropped.
\<close>

lemma parse_time_control_Inr_iff:
  "parse_time_control tc = Inr (i, j) \<longleftrightarrow>
     (\<exists>a b x q. split_on (CHR ''+'') tc = [a, b] \<and> py_float a = Inr x \<and>
        float_mul_int x 60 = Fin q \<and> i = trunc_rat q \<and> py_int b = Inr j)"
  by (auto simp: parse_time_control_def int_of_float_def
      split: list.splits sum.splits pyfloat.splits)

text \<open>
  When it raises \<^verbatim>\<open>OverflowError\<close>: exactly when the minutes are a float whose product
  with 60 is infinite. Whatever follows the \<^verbatim>\<open>+\<close> is not looked at then.
\<close>

lemma parse_time_control_Overflow_iff:
  "parse_time_control tc = Inl OverflowError \<longleftrightarrow>
     (\<exists>a b x. split_on (CHR ''+'') tc = [a, b] \<and> py_float a = Inr x \<and>
        (float_mul_int x 60 = PosInf \<or> float_mul_int x 60 = NegInf))"
proof
  assume l: "parse_time_control tc = Inl OverflowError"
  then obtain a b where ab: "split_on (CHR ''+'') tc = [a, b]"
    by (auto simp: parse_time_control_def split: list.splits)
  from l ab obtain x where x: "py_float a = Inr x"
    by (cases "py_float a") (auto simp: parse_time_control_def dest: py_float_Inl)
  have "int_of_float (float_mul_int x 60) = Inl OverflowError"
  proof (cases "int_of_float (float_mul_int x 60)")
    case (Inl e)
    with l ab x show ?thesis by (simp add: parse_time_control_def)
  next
    case (Inr i)
    with l ab x show ?thesis
      by (cases "py_int b") (auto simp: parse_time_control_def dest: py_int_Inl)
  qed
  with ab x show "\<exists>a b x. split_on (CHR ''+'') tc = [a, b] \<and> py_float a = Inr x \<and>
        (float_mul_int x 60 = PosInf \<or> float_mul_int x 60 = NegInf)"
    by (auto simp: int_of_float_Overflow_iff)
next
  assume "\<exists>a b x. split_on (CHR ''+'') tc = [a, b] \<and> py_float a = Inr x \<and>
        (float_mul_int x 60 = PosInf \<or> float_mul_int x 60 = NegInf)"
  then show "parse_time_control tc = Inl OverflowError"
    by (auto simp: parse_time_control_def int_of_float_def)
qed

lemma create_rematch_challenge_ValueError:
  assumes "parse_time_control (tc_str gi) = Inl ValueError \<or>
           (\<exists>p. parse_time_control (tc_str gi) = Inr p) \<and> variant gi \<notin> set vs"
  shows "create_rematch_challenge vs m gi n = Inr None"
  using assms
  by (auto simp: create_None_iff build_challenge_Inl_parse build_challenge_Inl_variant)

lemma offer_rematch_no_challenge:
  assumes "create_rematch_challenge vs m gi n = Inr None" and "get_opponent_name m gi = Some n"
  shows "offer_rematch vs gi m = Inr (False, m)"
  using assms by (simp add: offer_rematch_def)

lemma offer_rematch_raises:
  assumes "create_rematch_challenge vs m gi n = Inl e" and "get_opponent_name m gi = Some n"
    and "n \<noteq> []"
  shows "offer_rematch vs gi m = Inl e"
  using assms by (simp add: offer_rematch_def)

lemma float_8_2: "py_float ''8.2'' = Inr (Fin (2308094809027379 / 281474976710656))"
  by code_simp

lemma float_8_2_times_60:
  "float_mul_int (Fin (2308094809027379 / 281474976710656)) 60 =
     Fin (8655355533852671 / 17592186044416)"
  by code_simp

lemma float_inf: "py_float ''inf'' = Inr PosInf"
  by code_simp

lemma int_abc: "py_int ''abc'' = Inl ValueError"
  by code_simp

lemma parse_inf_1: "parse_time_control ''inf+1'' = Inl OverflowError"
  by code_simp

subsection \<open>The pending request\<close>

lemma get_request_None [simp]:
  "pending_rematch m = None \<Longrightarrow> get_rematch_challenge_request vs m = Inr None"
  by (simp add: get_rematch_challenge_request_def)

lemma get_request_Some:
  assumes "pending_rematch m = Some k" and "k \<noteq> []" and "last_game_info m = Some gi"
    and "parse_time_control (tc_str gi) = Inr (i, j)" and "variant gi \<in> set vs"
  shows "get_rematch_challenge_request vs m =
     Inr (Some \<lparr>opponent_username = k, initial_time = i, increment = j, cr_rated = rated gi,
                color = (if lower (white_name gi) = lower (username m) then BLACK else WHITE),
                cr_variant = variant gi, timeout = timeout_seconds (config m)\<rparr>)"
  using assms build_challenge_Inr [OF assms(4,5), of m k]
  by (simp add: get_rematch_challenge_request_def create_rematch_challenge_def)

lemma create_times:
  assumes "parse_time_control (tc_str gi) = Inr (i, j)" and "variant gi \<in> set vs"
  shows "map_sum id (map_option (\<lambda>r. (initial_time r, increment r)))
           (create_rematch_challenge vs m gi n) = Inr (Some (i, j))"
  using build_challenge_Inr [OF assms, of m n] by (simp add: create_rematch_challenge_def)

text \<open>
  What a built request holds in general: the time control had two parts, the first a
  float whose product with 60 is finite, and the initial time is that product with its
  fraction dropped (not rounded); the increment is the integer after the \<^verbatim>\<open>+\<close>.
\<close>

lemma create_initial_time:
  assumes "create_rematch_challenge vs m gi n = Inr (Some r)"
  shows "\<exists>a b x q. split_on (CHR ''+'') (tc_str gi) = [a, b] \<and> py_float a = Inr x \<and>
           float_mul_int x 60 = Fin q \<and> initial_time r = trunc_rat q \<and>
           py_int b = Inr (increment r)"
proof -
  from assms have "build_challenge vs m gi n = Inr r" by (simp add: create_Some_iff)
  from build_challenge_InrD [OF this]
  have "parse_time_control (tc_str gi) = Inr (initial_time r, increment r)" by simp
  then show ?thesis by (simp add: parse_time_control_Inr_iff)
qed

lemma create_no_overflow:
  assumes "parse_time_control (tc_str gi) \<noteq> Inl OverflowError"
  shows "\<exists>res. create_rematch_challenge vs m gi n = Inr res"
proof (cases "create_rematch_challenge vs m gi n")
  case (Inl e)
  then have "build_challenge vs m gi n = Inl OverflowError" by (simp add: create_Inl_iff)
  with assms show ?thesis
    by (auto simp: build_challenge_def Variant_def split: sum.splits prod.splits if_splits)
next
  case (Inr res)
  then show ?thesis by simp
qed

lemma round_8_2_times_60:
  "round_half_even (8655355533852671 / 17592186044416) = 492 \<and>
   trunc_rat (8655355533852671 / 17592186044416) = 491"
  by code_simp

section \<open>The claims\<close>

text \<open>
  C1, as the code has it. \<^verbatim>\<open>offer_rematch\<close> does not look at the pending key: after a
  successful offer, a second offer of the same snapshot succeeds again (returns true),
  the same key stays pending, and that opponent's count goes up by one more. The check
  for an offer already pending is in \<^verbatim>\<open>should_offer_rematch\<close>, which returns false there.
\<close>

theorem offer_rematch_twice:
  assumes "offer_rematch vs gi m = Inr (True, m')"
  shows "\<exists>n c. get_opponent_name m gi = Some n \<and>
           pending_rematch m' = Some (lower n) \<and>
           rematch_counts m' (lower n) = Some c \<and>
           \<not> should_offer_rematch m' gi \<and>
           offer_rematch vs gi m' =
             Inr (True, m'\<lparr>rematch_counts := (rematch_counts m')(lower n \<mapsto> c + 1)\<rparr>)"
proof -
  from offer_rematch_TrueD [OF assms] obtain n r where
    n: "get_opponent_name m gi = Some n" "n \<noteq> []"
    and r: "build_challenge vs m gi n = Inr r"
    and m': "m' = m\<lparr>rematch_counts :=
                     (rematch_counts m)(lower n \<mapsto>
                        (case rematch_counts m (lower n) of None \<Rightarrow> 0 | Some c \<Rightarrow> c) + 1),
                   pending_rematch := Some (lower n), last_game_info := Some gi,
                   rematch_offered := False\<rparr>"
    by blast
  define c where "c = (case rematch_counts m (lower n) of None \<Rightarrow> 0 | Some c \<Rightarrow> c) + 1"
  from m' have u: "username m' = username m" and cf: "config m' = config m" by simp_all
  from m' have p: "pending_rematch m' = Some (lower n)" by simp
  from m' have l: "last_game_info m' = Some gi" by simp
  from m' have o: "rematch_offered m' = False" by simp
  from m' have cnt: "rematch_counts m' (lower n) = Some c" by (simp add: c_def)
  from n(1) get_opponent_name_cong [OF u, of gi] have n': "get_opponent_name m' gi = Some n"
    by simp
  from r build_challenge_cong [OF u cf, of vs gi n] have r': "build_challenge vs m' gi n = Inr r"
    by simp
  from n' n(2) p have s: "\<not> should_offer_rematch m' gi"
    by (simp add: should_offer_rematch_def)
  have same: "m'\<lparr>rematch_counts := X, pending_rematch := Some (lower n),
                 last_game_info := Some gi, rematch_offered := False\<rparr> =
              m'\<lparr>rematch_counts := X\<rparr>" for X
    using p l o by (cases m') simp
  have "offer_rematch vs gi m' =
      Inr (True, m'\<lparr>rematch_counts := (rematch_counts m')(lower n \<mapsto> c + 1)\<rparr>)"
    unfolding offer_rematch_TrueI [OF n' n(2) r'] cnt same by simp
  with n(1) p cnt s show ?thesis by blast
qed

theorem offer_rematch_twice_witness:
  "offer_rematch bot_variants alice_game ns2_bot = Inr (True, alice_pending 1) \<and>
   (\<exists>n c. get_opponent_name ns2_bot alice_game = Some n \<and>
      pending_rematch (alice_pending 1) = Some (lower n) \<and>
      rematch_counts (alice_pending 1) (lower n) = Some c \<and>
      \<not> should_offer_rematch (alice_pending 1) alice_game \<and>
      offer_rematch bot_variants alice_game (alice_pending 1) =
        Inr (True, (alice_pending 1)\<lparr>rematch_counts :=
                      (rematch_counts (alice_pending 1))(lower n \<mapsto> c + 1)\<rparr>))"
  using offer_rematch_twice [OF offer_alice_first] offer_alice_first by simp

text \<open>
  C1 as stated fails: the second offer to Alice returns true and her count goes from 1
  to 2.
\<close>

theorem second_offer_counts:
  "offer_rematch bot_variants alice_game ns2_bot = Inr (True, alice_pending 1) \<and>
   offer_rematch bot_variants alice_game (alice_pending 1) = Inr (True, alice_pending 2) \<and>
   rematch_counts (alice_pending 1) ''alice'' = Some 1 \<and>
   rematch_counts (alice_pending 2) ''alice'' = Some 2"
  using offer_alice_again [of 1] by (simp add: offer_alice_first alice_pending_def)

text \<open>
  C2, as the code has it. For every opponent name and every manager,
  \<^verbatim>\<open>on_rematch_accepted\<close> and \<^verbatim>\<open>on_rematch_declined\<close> both set the pending key to \<^verbatim>\<open>None\<close>,
  leave the stored snapshot as it was, and leave every offer count as it was.
\<close>

theorem accepted_declined_effect:
  "pending_rematch (on_rematch_accepted opp m) = None \<and>
   last_game_info (on_rematch_accepted opp m) = last_game_info m \<and>
   rematch_counts (on_rematch_accepted opp m) = rematch_counts m \<and>
   pending_rematch (on_rematch_declined opp m) = None \<and>
   last_game_info (on_rematch_declined opp m) = last_game_info m \<and>
   rematch_counts (on_rematch_declined opp m) = rematch_counts m"
  by (simp add: on_rematch_accepted_def on_rematch_declined_def)

text \<open>
  C2 as stated fails: after the offer to Alice, accepting or declining leaves the stored
  snapshot in place.
\<close>

theorem accepted_keeps_snapshot:
  "offer_rematch bot_variants alice_game ns2_bot = Inr (True, alice_pending 1) \<and>
   last_game_info (on_rematch_accepted ''Alice'' (alice_pending 1)) = Some alice_game \<and>
   last_game_info (on_rematch_declined ''Alice'' (alice_pending 1)) = Some alice_game"
  by (simp add: offer_alice_first)
     (simp add: on_rematch_accepted_def on_rematch_declined_def alice_pending_def)

text \<open>
  C3, as the code has it. Both attributes are \<^verbatim>\<open>None\<close> after construction, and in every
  manager the operations produce, a pending key comes with a stored snapshot. The
  converse does not hold.
\<close>

theorem pending_has_snapshot:
  "pending_rematch (init cfg name) = None \<and> last_game_info (init cfg name) = None \<and>
   (reachable vs cfg name m \<longrightarrow> pending_rematch m \<noteq> None \<longrightarrow> last_game_info m \<noteq> None)"
proof -
  have "last_game_info m \<noteq> None" if "reachable vs cfg name m" "pending_rematch m \<noteq> None"
  proof -
    from that(2) obtain k where "pending_rematch m = Some k" by auto
    from reachable_pending [OF that(1) this] show ?thesis by auto
  qed
  then show ?thesis by (simp add: init_def)
qed

theorem pending_has_snapshot_witness:
  "reachable bot_variants bot_config ''NS2Bot'' (alice_pending 1) \<and>
   pending_rematch (alice_pending 1) \<noteq> None \<and> last_game_info (alice_pending 1) \<noteq> None"
proof -
  have p: "pending_rematch (alice_pending 1) \<noteq> None" by (simp add: alice_pending_def)
  from pending_has_snapshot [of bot_config "''NS2Bot''" bot_variants "alice_pending 1"]
    reachable_alice_pending p
  show ?thesis by simp
qed

text \<open>
  C3 as stated fails: offer, then accept. The manager has a stored snapshot and no
  pending key.
\<close>

theorem snapshot_without_pending:
  "reachable bot_variants bot_config ''NS2Bot'' (on_rematch_accepted ''Alice'' (alice_pending 1)) \<and>
   pending_rematch (on_rematch_accepted ''Alice'' (alice_pending 1)) = None \<and>
   last_game_info (on_rematch_accepted ''Alice'' (alice_pending 1)) \<noteq> None"
  using reachable_accepted [OF reachable_alice_pending, of "''Alice''"]
  by (simp add: on_rematch_accepted_def alice_pending_def)

text \<open>
  C4, on the code. The two examples of the claim hold: \<^verbatim>\<open>5+3\<close> gives 300 and 3,
  \<^verbatim>\<open>3.5+2\<close> gives 210 and 2. The initial time is \<^verbatim>\<open>int(minutes * 60)\<close>, which drops the
  fraction instead of rounding: for \<^verbatim>\<open>8.2+0\<close> the float product is just below 492
  (\<open>8655355533852671 / 17592186044416\<close>), rounding it gives 492 and the code gives 491.
\<close>

theorem time_control_examples:
  "map_sum id (map_option (\<lambda>r. (initial_time r, increment r)))
     (create_rematch_challenge bot_variants ns2_bot (alice_game\<lparr>tc_str := ''5+3''\<rparr>) ''Alice'') =
     Inr (Some (300, 3)) \<and>
   map_sum id (map_option (\<lambda>r. (initial_time r, increment r)))
     (create_rematch_challenge bot_variants ns2_bot (alice_game\<lparr>tc_str := ''3.5+2''\<rparr>) ''Alice'') =
     Inr (Some (210, 2)) \<and>
   py_float ''8.2'' = Inr (Fin (2308094809027379 / 281474976710656)) \<and>
   float_mul_int (Fin (2308094809027379 / 281474976710656)) 60 =
     Fin (8655355533852671 / 17592186044416) \<and>
   round_half_even (8655355533852671 / 17592186044416) = 492 \<and>
   map_sum id (map_option (\<lambda>r. (initial_time r, increment r)))
     (create_rematch_challenge bot_variants ns2_bot (alice_game\<lparr>tc_str := ''8.2+0''\<rparr>) ''Alice'') =
     Inr (Some (491, 0))"
proof -
  have v: "variant (alice_game\<lparr>tc_str := tc\<rparr>) \<in> set bot_variants" for tc
    by (simp add: alice_game_def bot_variants_def)
  have a: "parse_time_control (tc_str (alice_game\<lparr>tc_str := ''5+3''\<rparr>)) = Inr (300, 3)"
    by (simp add: parse_5_3)
  have b: "parse_time_control (tc_str (alice_game\<lparr>tc_str := ''3.5+2''\<rparr>)) = Inr (210, 2)"
    by (simp add: parse_35_2)
  have c: "parse_time_control (tc_str (alice_game\<lparr>tc_str := ''8.2+0''\<rparr>)) = Inr (491, 0)"
    by (simp add: parse_82_0)
  show ?thesis
    using create_times [OF a v, of ns2_bot "''Alice''"] create_times [OF b v, of ns2_bot "''Alice''"]
      create_times [OF c v, of ns2_bot "''Alice''"] float_8_2 float_8_2_times_60
      round_8_2_times_60
    by simp
qed

text \<open>
  C5. When neither the white nor the black player name equals the bot's user name after
  lower-casing, \<^verbatim>\<open>should_offer_rematch\<close> returns false and \<^verbatim>\<open>offer_rematch\<close> returns
  false without raising, and the manager after the offer is the manager before it (the
  pending key, the snapshot and the counts included). \<^verbatim>\<open>should_offer_rematch\<close> never
  assigns.
\<close>

theorem unresolved_opponent_no_offer:
  assumes "lower (white_name gi) \<noteq> lower (username m)"
    and "lower (black_name gi) \<noteq> lower (username m)"
  shows "\<not> should_offer_rematch m gi \<and> offer_rematch vs gi m = Inr (False, m)"
proof -
  from assms have "get_opponent_name m gi = None"
    by (simp add: get_opponent_name_None_iff)
  then show ?thesis
    by (simp add: should_offer_rematch_def offer_rematch_def)
qed

theorem unresolved_opponent_no_offer_witness:
  "lower (white_name others_game) \<noteq> lower (username (alice_pending 1)) \<and>
   lower (black_name others_game) \<noteq> lower (username (alice_pending 1)) \<and>
   \<not> should_offer_rematch (alice_pending 1) others_game \<and>
   offer_rematch bot_variants others_game (alice_pending 1) = Inr (False, alice_pending 1)"
proof -
  have w: "lower (white_name others_game) \<noteq> lower (username (alice_pending 1))"
    by (simp add: others_game_def alice_pending_def ns2_bot_def init_def lower_Carol lower_NS2Bot)
  have b: "lower (black_name others_game) \<noteq> lower (username (alice_pending 1))"
    by (simp add: others_game_def alice_pending_def ns2_bot_def init_def lower_Dave lower_NS2Bot)
  from unresolved_opponent_no_offer [OF w b, of bot_variants] w b show ?thesis by simp
qed

text \<open>
  C6, on the code. A time control whose minutes are \<^verbatim>\<open>inf\<close> makes the construction raise:
  \<^verbatim>\<open>float('inf') * 60\<close> is infinite and \<^verbatim>\<open>int\<close> of it raises \<^verbatim>\<open>OverflowError\<close>, which the
  \<^verbatim>\<open>except (ValueError, AttributeError)\<close> clause does not catch. This happens before the
  increment and the variant are looked at, so a non-numeric increment (\<^verbatim>\<open>inf+abc\<close>) or an
  unknown variant does not turn it into \<^verbatim>\<open>None\<close>, and \<^verbatim>\<open>offer_rematch\<close> raises too.
\<close>

theorem overflow_error_escapes:
  "py_int ''abc'' = Inl ValueError \<and>
   create_rematch_challenge bot_variants ns2_bot (alice_game\<lparr>tc_str := ''inf+abc''\<rparr>) ''Alice'' =
     Inl OverflowError \<and>
   offer_rematch bot_variants (alice_game\<lparr>tc_str := ''inf+abc''\<rparr>) ns2_bot = Inl OverflowError \<and>
   ''bogus'' \<notin> set bot_variants \<and>
   create_rematch_challenge bot_variants ns2_bot
     (alice_game\<lparr>tc_str := ''inf+1'', variant := ''bogus''\<rparr>) ''Alice'' = Inl OverflowError"
proof -
  have c1: "create_rematch_challenge bot_variants ns2_bot (alice_game\<lparr>tc_str := ''inf+abc''\<rparr>)
      ''Alice'' = Inl OverflowError"
    by (simp add: create_Inl_iff build_challenge_Inl_parse parse_inf_abc)
  have o: "get_opponent_name ns2_bot (alice_game\<lparr>tc_str := ''inf+abc''\<rparr>) = Some ''Alice''"
    by (simp add: get_opponent_name_def ns2_bot_def init_def alice_game_def
        lower_NS2Bot lower_ns2bot)
  have "''Alice'' \<noteq> []" by simp
  from offer_rematch_raises [OF c1 o this]
  have c2: "offer_rematch bot_variants (alice_game\<lparr>tc_str := ''inf+abc''\<rparr>) ns2_bot =
      Inl OverflowError" .
  have c3: "create_rematch_challenge bot_variants ns2_bot
     (alice_game\<lparr>tc_str := ''inf+1'', variant := ''bogus''\<rparr>) ''Alice'' = Inl OverflowError"
    by (simp add: create_Inl_iff build_challenge_Inl_parse parse_inf_1)
  show ?thesis using c1 c2 c3 by (simp add: int_abc bot_variants_def)
qed

text \<open>
  C7. In every manager the operations produce, \<^verbatim>\<open>get_rematch_challenge_request\<close> never
  raises; it returns \<^verbatim>\<open>None\<close> exactly when the pending key or the stored snapshot is
  \<^verbatim>\<open>None\<close>; otherwise it returns a request whose color is \<^verbatim>\<open>BLACK\<close> when the bot's name
  is the snapshot's white name (lower-cased), and else the bot's name is the black name
  and the color is \<^verbatim>\<open>WHITE\<close>.
\<close>

theorem pending_request_color:
  assumes "reachable vs cfg name m"
  shows "(get_rematch_challenge_request vs m = Inr None \<longleftrightarrow>
            pending_rematch m = None \<or> last_game_info m = None) \<and>
         (pending_rematch m \<noteq> None \<and> last_game_info m \<noteq> None \<longrightarrow>
            (\<exists>gi r. last_game_info m = Some gi \<and>
               get_rematch_challenge_request vs m = Inr (Some r) \<and>
               (lower (white_name gi) = lower name \<longrightarrow> color r = BLACK) \<and>
               (lower (white_name gi) \<noteq> lower name \<longrightarrow>
                  lower (black_name gi) = lower name \<and> color r = WHITE)))"
proof (cases "pending_rematch m")
  case None
  then show ?thesis by simp
next
  case (Some k)
  from reachable_pending [OF assms Some] obtain gi p where
    k: "k \<noteq> []" and gi: "last_game_info m = Some gi"
    and names: "lower (white_name gi) = lower name \<or> lower (black_name gi) = lower name"
    and p: "parse_time_control (tc_str gi) = Inr p" and v: "variant gi \<in> set vs"
    by blast
  obtain i j where ij: "p = (i, j)" by (cases p)
  from reachable_username_config [OF assms] have u: "username m = name" by simp
  define r where "r = \<lparr>opponent_username = k, initial_time = i, increment = j,
      cr_rated = rated gi,
      color = (if lower (white_name gi) = lower name then BLACK else WHITE),
      cr_variant = variant gi, timeout = timeout_seconds (config m)\<rparr>"
  from get_request_Some [OF Some k gi p [unfolded ij] v] u
  have g: "get_rematch_challenge_request vs m = Inr (Some r)" by (simp add: r_def)
  have c: "color r = (if lower (white_name gi) = lower name then BLACK else WHITE)"
    by (simp add: r_def)
  from g Some gi have "get_rematch_challenge_request vs m = Inr None \<longleftrightarrow>
            pending_rematch m = None \<or> last_game_info m = None" by simp
  moreover from gi g c names have "\<exists>gi r. last_game_info m = Some gi \<and>
               get_rematch_challenge_request vs m = Inr (Some r) \<and>
               (lower (white_name gi) = lower name \<longrightarrow> color r = BLACK) \<and>
               (lower (white_name gi) \<noteq> lower name \<longrightarrow>
                  lower (black_name gi) = lower name \<and> color r = WHITE)"
    by auto
  ultimately show ?thesis by blast
qed

theorem pending_request_color_witness:
  "reachable bot_variants bot_config ''NS2Bot'' (alice_pending 1) \<and>
   pending_rematch (alice_pending 1) \<noteq> None \<and> last_game_info (alice_pending 1) \<noteq> None \<and>
   get_rematch_challenge_request bot_variants (alice_pending 1) \<noteq> Inr None \<and>
   (\<exists>r. get_rematch_challenge_request bot_variants (alice_pending 1) = Inr (Some r) \<and>
      lower (white_name alice_game) = lower ''NS2Bot'' \<and> color r = BLACK)"
proof -
  have p: "pending_rematch (alice_pending 1) \<noteq> None"
    and l: "last_game_info (alice_pending 1) = Some alice_game"
    by (simp_all add: alice_pending_def)
  have w: "lower (white_name alice_game) = lower ''NS2Bot''"
    by (simp add: alice_game_def lower_ns2bot lower_NS2Bot)
  from pending_request_color [OF reachable_alice_pending] p l w reachable_alice_pending
  show ?thesis by auto
qed

text \<open>
  C8, as the code has it. The bot (any letter case of its name as white) has played
  Alice, rated, \<^verbatim>\<open>3+2\<close>, standard, and \<^verbatim>\<open>standard\<close> is a variant of the enumeration. After
  the finished-game notice, the offer succeeds; the pending request is for the
  lower-cased key \<^verbatim>\<open>alice\<close>, color \<^verbatim>\<open>BLACK\<close>, 180 seconds, increment 2, rated; the decline
  clears the pending key, after which no request is pending; the next offer of the same
  snapshot succeeds and Alice's count is 2.
\<close>

theorem alice_session:
  assumes "''standard'' \<in> set vs" and "lower w = lower u"
  shows "let gi = \<lparr>white_name = w, black_name = ''Alice'', tc_str = ''3+2'', rated = True,
                   variant = ''standard''\<rparr>;
             m0 = on_game_finished ''Alice'' (init cfg u);
             m1 = (init cfg u)\<lparr>rematch_counts := [''alice'' \<mapsto> 1],
                     last_game_info := Some gi, pending_rematch := Some ''alice''\<rparr>;
             m2 = on_rematch_declined ''Alice'' m1
         in offer_rematch vs gi m0 = Inr (True, m1) \<and>
            get_rematch_challenge_request vs m1 =
              Inr (Some \<lparr>opponent_username = ''alice'', initial_time = 180, increment = 2,
                         cr_rated = True, color = BLACK, cr_variant = ''standard'',
                         timeout = timeout_seconds cfg\<rparr>) \<and>
            pending_rematch m2 = None \<and>
            get_rematch_challenge_request vs m2 = Inr None \<and>
            offer_rematch vs gi m2 = Inr (True, m1\<lparr>rematch_counts := [''alice'' \<mapsto> 2]\<rparr>) \<and>
            rematch_counts (m1\<lparr>rematch_counts := [''alice'' \<mapsto> 2]\<rparr>) ''alice'' = Some 2"
proof -
  define gi where "gi = \<lparr>white_name = w, black_name = ''Alice'', tc_str = ''3+2'',
      rated = True, variant = ''standard''\<rparr>"
  define m1 where "m1 = (init cfg u)\<lparr>rematch_counts := [''alice'' \<mapsto> 1],
      last_game_info := Some gi, pending_rematch := Some ''alice''\<rparr>"
  define m2 where "m2 = on_rematch_declined ''Alice'' m1"
  have m0: "on_game_finished ''Alice'' (init cfg u) = init cfg u"
    by (simp add: on_game_finished_def init_def)
  have ne: "''Alice'' \<noteq> []" by simp
  have tc: "parse_time_control (tc_str gi) = Inr (180, 2)"
    by (simp add: gi_def parse_3_2)
  have v: "variant gi \<in> set vs" using assms(1) by (simp add: gi_def)
  have opp: "get_opponent_name m gi = Some ''Alice''" if "username m = u" for m
    using that assms(2) by (simp add: get_opponent_name_def gi_def)
  have build: "build_challenge vs m gi n =
      Inr \<lparr>opponent_username = n, initial_time = 180, increment = 2, cr_rated = True,
           color = BLACK, cr_variant = ''standard'', timeout = timeout_seconds cfg\<rparr>"
    if "username m = u" "config m = cfg" for m n
    using build_challenge_Inr [OF tc v, of m n] that assms(2) by (simp add: gi_def)
  have u0: "username (init cfg u) = u" "config (init cfg u) = cfg"
    by (simp_all add: init_def)
  have u2: "username m2 = u" "config m2 = cfg"
    by (simp_all add: m2_def m1_def on_rematch_declined_def init_def)
  have o1: "offer_rematch vs gi (init cfg u) = Inr (True, m1)"
    using offer_rematch_TrueI [OF opp [OF u0(1)] ne build [OF u0]]
    by (simp add: lower_Alice m1_def init_def)
  have g1: "get_rematch_challenge_request vs m1 =
      Inr (Some \<lparr>opponent_username = ''alice'', initial_time = 180, increment = 2,
                 cr_rated = True, color = BLACK, cr_variant = ''standard'',
                 timeout = timeout_seconds cfg\<rparr>)"
    using get_request_Some [of m1 "''alice''" gi 180 2 vs] tc v assms(2)
    by (simp add: m1_def init_def gi_def)
  have p2: "pending_rematch m2 = None"
    by (simp add: m2_def on_rematch_declined_def)
  have o2: "offer_rematch vs gi m2 = Inr (True, m1\<lparr>rematch_counts := [''alice'' \<mapsto> 2]\<rparr>)"
    using offer_rematch_TrueI [OF opp [OF u2(1)] ne build [OF u2]]
    by (simp add: lower_Alice m2_def m1_def on_rematch_declined_def init_def)
  show ?thesis
    unfolding Let_def m0 gi_def [symmetric] m1_def [symmetric] m2_def [symmetric]
    using o1 g1 p2 o2 by simp
qed

theorem alice_session_witness:
  "''standard'' \<in> set bot_variants \<and> lower ''ns2bot'' = lower ''NS2Bot'' \<and>
   offer_rematch bot_variants alice_game (on_game_finished ''Alice'' ns2_bot) =
     Inr (True, alice_pending 1) \<and>
   get_rematch_challenge_request bot_variants (alice_pending 1) =
     Inr (Some \<lparr>opponent_username = ''alice'', initial_time = 180, increment = 2,
                cr_rated = True, color = BLACK, cr_variant = ''standard'', timeout = 30\<rparr>) \<and>
   pending_rematch (on_rematch_declined ''Alice'' (alice_pending 1)) = None \<and>
   offer_rematch bot_variants alice_game (on_rematch_declined ''Alice'' (alice_pending 1)) =
     Inr (True, alice_pending 2)"
proof -
  have s: "''standard'' \<in> set bot_variants" by (simp add: bot_variants_def)
  have l: "lower ''ns2bot'' = lower ''NS2Bot''" by (simp add: lower_ns2bot lower_NS2Bot)
  from alice_session [OF s l, of bot_config] s l show ?thesis
    by (simp add: Let_def alice_game_def alice_pending_def ns2_bot_def bot_config_def)
qed

text \<open>
  C8 as stated fails in one field: the pending request names the opponent by the
  lower-cased key \<^verbatim>\<open>alice\<close>, not by \<^verbatim>\<open>Alice\<close>.
\<close>

theorem pending_request_names_key:
  "offer_rematch bot_variants alice_game ns2_bot = Inr (True, alice_pending 1) \<and>
   get_rematch_challenge_request bot_variants (alice_pending 1) =
     Inr (Some \<lparr>opponent_username = ''alice'', initial_time = 180, increment = 2,
                cr_rated = True, color = BLACK, cr_variant = ''standard'', timeout = 30\<rparr>) \<and>
   get_rematch_challenge_request bot_variants (alice_pending 1) \<noteq>
     Inr (Some \<lparr>opponent_username = ''Alice'', initial_time = 180, increment = 2,
                cr_rated = True, color = BLACK, cr_variant = ''standard'', timeout = 30\<rparr>)"
proof -
  have "get_rematch_challenge_request bot_variants (alice_pending 1) =
     Inr (Some \<lparr>opponent_username = ''alice'', initial_time = 180, increment = 2,
                cr_rated = True, color = BLACK, cr_variant = ''standard'', timeout = 30\<rparr>)"
    using get_request_Some [of "alice_pending 1" "''alice''" alice_game 180 2 bot_variants]
    by (simp add: alice_pending_def ns2_bot_def init_def alice_game_def bot_variants_def
        bot_config_def parse_3_2 lower_ns2bot lower_NS2Bot)
  then show ?thesis by (simp add: offer_alice_first)
qed

text \<open>
  C9. For every opponent name and every manager, \<^verbatim>\<open>on_game_finished\<close> resets the
  offered-this-cycle flag and nothing else: the pending key, the stored snapshot, every
  offer count, the user name and the configuration stay as they were.
\<close>

theorem on_game_finished_frame:
  "on_game_finished opp m = m\<lparr>rematch_offered := False\<rparr> \<and>
   rematch_offered (on_game_finished opp m) = False \<and>
   pending_rematch (on_game_finished opp m) = pending_rematch m \<and>
   last_game_info (on_game_finished opp m) = last_game_info m \<and>
   rematch_counts (on_game_finished opp m) = rematch_counts m \<and>
   username (on_game_finished opp m) = username m \<and>
   config (on_game_finished opp m) = config m"
  by (simp add: on_game_finished_def)

text \<open>
  C10. The manager has one pending slot. When an offer to \<open>key_a\<close> is pending and an
  offer for a game against another opponent succeeds, \<^verbatim>\<open>should_offer_rematch\<close> had
  allowed it, the slot holds the new opponent's key and the snapshot is the new game;
  the first offer is gone from the slot with no accept, decline or clear, and its
  count is as before.
\<close>

theorem offer_overwrites_pending:
  assumes "pending_rematch m = Some key_a"
    and "get_opponent_name m gi_b = Some name_b"
    and "lower name_b \<noteq> key_a"
    and "offer_rematch vs gi_b m = Inr (True, m')"
  shows "should_offer_rematch m gi_b \<and>
         pending_rematch m' = Some (lower name_b) \<and>
         pending_rematch m' \<noteq> Some key_a \<and>
         last_game_info m' = Some gi_b \<and>
         rematch_counts m' key_a = rematch_counts m key_a"
proof -
  from offer_rematch_TrueD [OF assms(4)] assms(2) obtain r where
    ne: "name_b \<noteq> []"
    and m': "m' = m\<lparr>rematch_counts :=
                     (rematch_counts m)(lower name_b \<mapsto>
                        (case rematch_counts m (lower name_b) of None \<Rightarrow> 0 | Some c \<Rightarrow> c) + 1),
                   pending_rematch := Some (lower name_b), last_game_info := Some gi_b,
                   rematch_offered := False\<rparr>"
    by auto
  from assms(1,2,3) ne have "should_offer_rematch m gi_b"
    by (auto simp: should_offer_rematch_def)
  moreover from m' assms(3) have "pending_rematch m' = Some (lower name_b)"
    "pending_rematch m' \<noteq> Some key_a" "last_game_info m' = Some gi_b"
    "rematch_counts m' key_a = rematch_counts m key_a"
    by simp_all
  ultimately show ?thesis by simp
qed

theorem offer_overwrites_pending_witness:
  "pending_rematch (alice_pending 1) = Some ''alice'' \<and>
   get_opponent_name (alice_pending 1) bob_game = Some ''Bob'' \<and>
   lower ''Bob'' \<noteq> ''alice'' \<and>
   should_offer_rematch (alice_pending 1) bob_game \<and>
   (\<exists>m'. offer_rematch bot_variants bob_game (alice_pending 1) = Inr (True, m') \<and>
      pending_rematch m' = Some ''bob'' \<and> last_game_info m' = Some bob_game \<and>
      rematch_counts m' ''alice'' = Some 1)"
proof -
  have a: "pending_rematch (alice_pending 1) = Some ''alice''"
    by (simp add: alice_pending_def)
  have c: "lower ''Bob'' \<noteq> ''alice''" by (simp add: lower_Bob)
  have cnt: "rematch_counts (alice_pending 1) ''alice'' = Some 1"
    by (simp add: alice_pending_def)
  from offer_overwrites_pending [OF a opponent_bob c offer_bob] a c cnt
  show ?thesis by (simp add: opponent_bob offer_bob lower_Bob)
qed

end
